theory Spec2Isabelle
  imports Complex_Main "HOL-Library.Product_Lexorder"
begin

section \<open>Merging lagged signals with monthly returns, and portfolio sorts\<close>

text \<open>
  The development follows the notebook \<^verbatim>\<open>examples/merge_signals_with_crsp.ipynb\<close>.
  Its cells are calls into a dataframe library; each call is modelled by a function on
  lists of rows that computes what the call computes. Floating-point columns are read as
  real numbers, \<open>None\<close> standing for a missing value (NaN); the rounding of the
  library's arithmetic is not modelled. Dates are triples (year, month, day), ordered
  lexicographically.
\<close>

subsection \<open>Errors and dates\<close>

datatype error = ValueError | IndexError | OutOfBoundsDatetime | NameError | KeyError

type_synonym date = "int \<times> int \<times> int"

text \<open>
  A timestamp at midnight fits the library's 64-bit nanosecond range from 1677-09-22
  to 2262-04-11.
\<close>

definition in_bounds :: "date \<Rightarrow> bool" where
  "in_bounds d \<longleftrightarrow> (1677, 9, 22) \<le> d \<and> d \<le> (2262, 4, 11)"

text \<open>
  \<^verbatim>\<open>pd.to_datetime(yyyymm.astype(str) + '28', format='%Y%m%d')\<close> for a six-digit
  year-month, the format of the signal provider. The model covers six-digit values: a
  month outside 1..12 does not parse, and a date outside the timestamp range overflows.
  Integers with another number of digits are outside the model and are given
  \<open>ValueError\<close>.
\<close>

definition to_datetime28 :: "int \<Rightarrow> error + date" where
  "to_datetime28 yyyymm =
     (let y = yyyymm div 100; m = yyyymm mod 100 in
      if 1000 \<le> y \<and> y \<le> 9999 \<and> 1 \<le> m \<and> m \<le> 12
      then (if in_bounds (y, m, 28) then Inr (y, m, 28) else Inl OutOfBoundsDatetime)
      else Inl ValueError)"

text \<open>The number of days of a month, leap years included.\<close>

definition leap_year :: "int \<Rightarrow> bool" where
  "leap_year y \<longleftrightarrow> y mod 4 = 0 \<and> (y mod 100 \<noteq> 0 \<or> y mod 400 = 0)"

definition days_in_month :: "int \<Rightarrow> int \<Rightarrow> int" where
  "days_in_month y m =
     (if m = 2 then (if leap_year y then 29 else 28)
      else if m = 4 \<or> m = 6 \<or> m = 9 \<or> m = 11 then 30
      else 31)"

text \<open>
  \<^verbatim>\<open>+ pd.DateOffset(months=1)\<close>: the month moves on by one, December rolls into
  January of the next year, and the day is kept unless the new month is shorter.
\<close>

definition add_month :: "date \<Rightarrow> error + date" where
  "add_month d =
     (case d of (y, m, dd) \<Rightarrow>
        let y' = (if m = 12 then y + 1 else y);
            m' = (if m = 12 then 1 else m + 1);
            d' = (y', m', min dd (days_in_month y' m'))
        in if in_bounds d' then Inr d' else Inl OutOfBoundsDatetime)"

definition lag_date :: "int \<Rightarrow> error + date" where
  "lag_date yyyymm = (case to_datetime28 yyyymm of Inl e \<Rightarrow> Inl e | Inr d \<Rightarrow> add_month d)"

text \<open>
  \<^verbatim>\<open>pd.to_datetime(date.dt.strftime('%Y%m') + '28', format='%Y%m%d')\<close> on a timestamp.
\<close>

definition to_day28 :: "date \<Rightarrow> error + date" where
  "to_day28 d =
     (case d of (y, m, dd) \<Rightarrow>
        if in_bounds (y, m, 28) then Inr (y, m, 28) else Inl OutOfBoundsDatetime)"

text \<open>A column operation raises as soon as one element raises.\<close>

fun mapM :: "('a \<Rightarrow> error + 'b) \<Rightarrow> 'a list \<Rightarrow> error + 'b list" where
  "mapM f [] = Inr []"
| "mapM f (x # xs) =
     (case f x of
        Inl e \<Rightarrow> Inl e
      | Inr y \<Rightarrow> (case mapM f xs of Inl e \<Rightarrow> Inl e | Inr ys \<Rightarrow> Inr (y # ys)))"

subsection \<open>The tables\<close>

text \<open>The signal provider's rows: \<^verbatim>\<open>permno, yyyymm, BM, AssetGrowth\<close>.\<close>

record signal_row =
  sg_permno :: int
  sg_yyyymm :: int
  sg_BM :: "real option"
  sg_AssetGrowth :: "real option"

text \<open>\<^verbatim>\<open>signals_lag\<close>: \<^verbatim>\<open>permno, yyyymm_signals, BM, AssetGrowth, date\<close>.\<close>

record lag_row =
  lag_permno :: int
  lag_yyyymm_signals :: int
  lag_BM :: "real option"
  lag_AssetGrowth :: "real option"
  lag_date_col :: date

text \<open>\<^verbatim>\<open>crsp\<close>: \<^verbatim>\<open>permno, date, ret\<close>.\<close>

record crsp_row =
  crsp_permno :: int
  crsp_date :: date
  crsp_ret :: "real option"

text \<open>\<^verbatim>\<open>crsp_signals\<close>: \<^verbatim>\<open>permno, date, ret, yyyymm_signals, BM, AssetGrowth\<close>.\<close>

record merged_row =
  permno :: int
  date :: date
  ret :: "real option"
  yyyymm_signals :: "int option"
  BM :: "real option"
  AssetGrowth :: "real option"

subsection \<open>Lagging the signals and the left join\<close>

definition lag_row_of :: "signal_row \<Rightarrow> error + lag_row" where
  "lag_row_of s =
     (case lag_date (sg_yyyymm s) of
        Inl e \<Rightarrow> Inl e
      | Inr d \<Rightarrow> Inr \<lparr>lag_permno = sg_permno s, lag_yyyymm_signals = sg_yyyymm s,
                     lag_BM = sg_BM s, lag_AssetGrowth = sg_AssetGrowth s, lag_date_col = d\<rparr>)"

definition signals_lag :: "signal_row list \<Rightarrow> error + lag_row list" where
  "signals_lag signals = mapM lag_row_of signals"

definition crsp_day28_row :: "crsp_row \<Rightarrow> error + crsp_row" where
  "crsp_day28_row c =
     (case to_day28 (crsp_date c) of Inl e \<Rightarrow> Inl e | Inr d \<Rightarrow> Inr (c\<lparr>crsp_date := d\<rparr>))"

definition crsp_day28 :: "crsp_row list \<Rightarrow> error + crsp_row list" where
  "crsp_day28 crsp = mapM crsp_day28_row crsp"

definition join_row :: "crsp_row \<Rightarrow> lag_row \<Rightarrow> merged_row" where
  "join_row c s =
     \<lparr>permno = crsp_permno c, date = crsp_date c, ret = crsp_ret c,
      yyyymm_signals = Some (lag_yyyymm_signals s), BM = lag_BM s,
      AssetGrowth = lag_AssetGrowth s\<rparr>"

definition unmatched_row :: "crsp_row \<Rightarrow> merged_row" where
  "unmatched_row c =
     \<lparr>permno = crsp_permno c, date = crsp_date c, ret = crsp_ret c,
      yyyymm_signals = None, BM = None, AssetGrowth = None\<rparr>"

definition key_match :: "crsp_row \<Rightarrow> lag_row \<Rightarrow> bool" where
  "key_match c s \<longleftrightarrow> lag_permno s = crsp_permno c \<and> lag_date_col s = crsp_date c"

text \<open>
  \<^verbatim>\<open>pd.merge(crsp, signals_lag, on=['permno', 'date'], how='left')\<close>: every row of
  the left table is kept, once for each right row with the same key, or once with missing
  right columns when there is none.
\<close>

definition merge_left :: "crsp_row list \<Rightarrow> lag_row list \<Rightarrow> merged_row list" where
  "merge_left crsp sl =
     concat (map (\<lambda>c. case filter (key_match c) sl of
                         [] \<Rightarrow> [unmatched_row c]
                       | ms \<Rightarrow> map (join_row c) ms) crsp)"

definition merge_signals_with_crsp ::
  "crsp_row list \<Rightarrow> signal_row list \<Rightarrow> error + merged_row list" where
  "merge_signals_with_crsp crsp signals =
     (case signals_lag signals of
        Inl e \<Rightarrow> Inl e
      | Inr sl \<Rightarrow> (case crsp_day28 crsp of
                    Inl e \<Rightarrow> Inl e
                  | Inr c28 \<Rightarrow> Inr (merge_left c28 sl)))"

text \<open>The month after a year-month, as a date on day 28.\<close>

definition next_month28 :: "int \<Rightarrow> date" where
  "next_month28 yyyymm =
     (if yyyymm mod 100 = 12 then (yyyymm div 100 + 1, 1, 28)
      else (yyyymm div 100, yyyymm mod 100 + 1, 28))"

subsection \<open>Quantile bins\<close>

text \<open>The signal columns a portfolio sort can select: \<^verbatim>\<open>signal_list = ['BM', 'AssetGrowth']\<close>.\<close>

datatype signalname = SigBM | SigAssetGrowth

text \<open>
  \<^verbatim>\<open>temp\<close>: \<^verbatim>\<open>permno, date, ret, signalname\<close>, and \<^verbatim>\<open>port\<close> once it is assigned.
  The column \<open>t_port\<close> holds \<open>None\<close> until then, and afterwards \<open>None\<close> for a row with
  no portfolio.
\<close>

record temp_row =
  t_permno :: int
  t_date :: date
  t_ret :: "real option"
  t_signal :: "real option"
  t_port :: "nat option"

definition dropna :: "'a option list \<Rightarrow> 'a list" where
  "dropna xs = [v. Some v \<leftarrow> xs]"

text \<open>\<^verbatim>\<open>np.linspace(0, 1, num)\<close>; a single sample is the start point.\<close>

definition linspace01 :: "nat \<Rightarrow> real list" where
  "linspace01 num =
     (if num = 1 then [0] else map (\<lambda>i. real i / real (num - 1)) [0..<num])"

text \<open>
  \<^verbatim>\<open>Series.quantile\<close> with linear interpolation, on the sorted non-missing values:
  the virtual index is \<open>q * (N - 1)\<close>, and the result interpolates between the elements
  at its floor and at the next index (clipped to the last one).
\<close>

definition quantile :: "real list \<Rightarrow> real \<Rightarrow> real" where
  "quantile vs q =
     (let h = q * real (length vs - 1);
          lo = nat \<lfloor>h\<rfloor>;
          hi = min (lo + 1) (length vs - 1)
      in vs ! lo + (vs ! hi - vs ! lo) * (h - real lo))"

text \<open>\<^verbatim>\<open>bins.searchsorted(x, side='left')\<close>: the first index whose edge is not below \<open>v\<close>.\<close>

definition searchsorted_left :: "real list \<Rightarrow> real \<Rightarrow> nat" where
  "searchsorted_left bins v = length (takeWhile (\<lambda>b. b < v) bins)"

text \<open>
  The label of one value: the lowest edge is included in the first bin
  (\<^verbatim>\<open>include_lowest\<close>), an index of 0 or past the last edge is masked, and the label is
  taken from \<^verbatim>\<open>labels\<close> at the index minus one. A missing value has no label.
\<close>

definition bin_label :: "real list \<Rightarrow> nat list \<Rightarrow> real option \<Rightarrow> nat option" where
  "bin_label bins labels x =
     (case x of
        None \<Rightarrow> None
      | Some v \<Rightarrow>
          let ids = (if v = bins ! 0 then 1 else searchsorted_left bins v)
          in if ids = length bins \<or> ids = 0 then None else Some (labels ! (ids - 1)))"

text \<open>
  \<^verbatim>\<open>pd.qcut(x, q, labels=list(range(1, q+1)))\<close> on one group. A negative number of
  samples is refused by \<^verbatim>\<open>np.linspace\<close>; with no sample there is no lowest edge to read.
  When every value is missing all edges are NaN, which count as one edge. Edges that are
  not pairwise different are refused, unless there are exactly two of them.
\<close>

definition qcut :: "real option list \<Rightarrow> int \<Rightarrow> error + nat option list" where
  "qcut x q =
     (if q < - 1 then Inl ValueError
      else if q = - 1 then Inl IndexError
      else
        let num = nat (q + 1);
            labels = [1..<num];
            vs = sort (dropna x)
        in if vs = [] then
             (if num \<noteq> 1 \<and> num \<noteq> 2 then Inl ValueError else Inr (map (\<lambda>_. None) x))
           else
             let bins = map (quantile vs) (linspace01 num)
             in if \<not> distinct bins \<and> length bins \<noteq> 2 then Inl ValueError
                else Inr (map (bin_label bins labels) x))"

subsection \<open>Assigning portfolios by date\<close>

definition signal_column :: "signalname \<Rightarrow> merged_row \<Rightarrow> real option" where
  "signal_column sg r = (case sg of SigBM \<Rightarrow> BM r | SigAssetGrowth \<Rightarrow> AssetGrowth r)"

text \<open>\<^verbatim>\<open>crsp_signals[['permno', 'date', 'ret', signalname]]\<close>.\<close>

definition select_columns :: "signalname \<Rightarrow> merged_row list \<Rightarrow> temp_row list" where
  "select_columns sg obs =
     map (\<lambda>r. \<lparr>t_permno = permno r, t_date = date r, t_ret = ret r,
               t_signal = signal_column sg r, t_port = None\<rparr>) obs"

text \<open>The keys of \<^verbatim>\<open>groupby('date')\<close>, sorted, and the rows of one key in table order.\<close>

definition group_dates :: "temp_row list \<Rightarrow> date list" where
  "group_dates rows = sort (remdups (map t_date rows))"

definition group_of :: "temp_row list \<Rightarrow> date \<Rightarrow> temp_row list" where
  "group_of rows d = filter (\<lambda>r. t_date r = d) rows"

definition pos_in_group :: "temp_row list \<Rightarrow> nat \<Rightarrow> nat" where
  "pos_in_group rows i = length (group_of (take i rows) (t_date (rows ! i)))"

text \<open>
  \<^verbatim>\<open>temp.groupby('date')[signalname].transform(lambda x: pd.qcut(x, n, labels=...))\<close>:
  the function runs on every group in key order, and each group's labels go back to the
  positions of the group's rows.
\<close>

definition transform_qcut :: "temp_row list \<Rightarrow> int \<Rightarrow> error + nat option list" where
  "transform_qcut rows n =
     (case mapM (\<lambda>d. qcut (map t_signal (group_of rows d)) n) (group_dates rows) of
        Inl e \<Rightarrow> Inl e
      | Inr res \<Rightarrow>
          Inr (map (\<lambda>i. case map_of (zip (group_dates rows) res) (t_date (rows ! i)) of
                           None \<Rightarrow> None
                         | Some ls \<Rightarrow> ls ! pos_in_group rows i)
                   [0..<length rows]))"

text \<open>\<^verbatim>\<open>temp['port'] = ...\<close>: the column assignment, row by row.\<close>

definition set_port :: "temp_row list \<Rightarrow> nat option list \<Rightarrow> temp_row list" where
  "set_port rows ls = map (\<lambda>(r, l). r\<lparr>t_port := l\<rparr>) (zip rows ls)"

text \<open>
  The categories of the \<^verbatim>\<open>port\<close> column are the labels \<open>1..n\<close>. A table without
  rows has no group, and the transform then returns a plain empty column without
  categories.
\<close>

definition categories :: "temp_row list \<Rightarrow> int \<Rightarrow> nat list" where
  "categories rows n = (if rows = [] then [] else [1..<nat (n + 1)])"

text \<open>
  The sorted values and the bin edges of one date group, and the label that the edges of
  its date give a row.
\<close>

definition group_values :: "temp_row list \<Rightarrow> date \<Rightarrow> real list" where
  "group_values rows d = sort (dropna (map t_signal (group_of rows d)))"

definition group_bins :: "temp_row list \<Rightarrow> int \<Rightarrow> date \<Rightarrow> real list" where
  "group_bins rows n d = map (quantile (group_values rows d)) (linspace01 (nat (n + 1)))"

definition row_label :: "temp_row list \<Rightarrow> int \<Rightarrow> temp_row \<Rightarrow> nat option" where
  "row_label rows n r =
     bin_label (group_bins rows n (t_date r)) [1..<nat (n + 1)] (t_signal r)"

subsection \<open>Aggregation by date and portfolio, and by portfolio\<close>

definition mean :: "real list \<Rightarrow> real option" where
  "mean xs = (if xs = [] then None else Some (sum_list xs / real (length xs)))"

text \<open>The sample standard deviation (one degree of freedom less), missing below two values.\<close>

definition std :: "real list \<Rightarrow> real option" where
  "std xs =
     (if length xs < 2 then None
      else let m = sum_list xs / real (length xs)
           in Some (sqrt (sum_list (map (\<lambda>x. (x - m)\<^sup>2) xs) / real (length xs - 1))))"

record port_row =
  p_date :: date
  p_port :: nat
  p_nstock :: nat
  p_ret :: "real option"

text \<open>
  \<^verbatim>\<open>temp.groupby(['date', 'port'], observed=False).agg(nstock=('permno', 'count'),
  ret=('ret', 'mean')).reset_index()\<close>: one row for every date of the table and every
  category, whether or not a row of the table has that pair.
\<close>

definition port_cell :: "temp_row list \<Rightarrow> date \<Rightarrow> nat \<Rightarrow> temp_row list" where
  "port_cell temp d g = filter (\<lambda>r. t_date r = d \<and> t_port r = Some g) temp"

definition port_agg :: "temp_row list \<Rightarrow> nat list \<Rightarrow> port_row list" where
  "port_agg temp cats =
     concat (map (\<lambda>d. map (\<lambda>g. \<lparr>p_date = d, p_port = g,
                                 p_nstock = length (port_cell temp d g),
                                 p_ret = mean (dropna (map t_ret (port_cell temp d g)))\<rparr>) cats)
                 (group_dates temp))"

record summary_row =
  s_port :: nat
  ret_mean :: "real option"
  ret_std :: "real option"
  nstock_mean :: "real option"
  date_min :: "date option"
  date_max :: "date option"

definition min_date :: "date list \<Rightarrow> date option" where
  "min_date ds = (if ds = [] then None else Some (Min (set ds)))"

definition max_date :: "date list \<Rightarrow> date option" where
  "max_date ds = (if ds = [] then None else Some (Max (set ds)))"

text \<open>
  \<^verbatim>\<open>port.groupby('port', observed=False).agg({'ret': ['mean', 'std'], 'nstock': 'mean',
  'date': ['min', 'max']})\<close>: one row for every category.
\<close>

definition port_summary :: "port_row list \<Rightarrow> nat list \<Rightarrow> summary_row list" where
  "port_summary port cats =
     map (\<lambda>g. let rows = filter (\<lambda>p. p_port p = g) port in
               \<lparr>s_port = g,
                ret_mean = mean (dropna (map p_ret rows)),
                ret_std = std (dropna (map p_ret rows)),
                nstock_mean = mean (map (\<lambda>p. real (p_nstock p)) rows),
                date_min = min_date (map p_date rows),
                date_max = max_date (map p_date rows)\<rparr>) cats"

text \<open>The assignment \<^verbatim>\<open>temp['port'] = ...\<close> as a whole: it raises when the transform raises.\<close>

definition assign_port :: "temp_row list \<Rightarrow> int \<Rightarrow> error + temp_row list" where
  "assign_port rows n =
     (case transform_qcut rows n of Inl e \<Rightarrow> Inl e | Inr ls \<Rightarrow> Inr (set_port rows ls))"

text \<open>The portfolio-sort cell as a function of the merged table and the number of portfolios.\<close>

definition summarize :: "signalname \<Rightarrow> merged_row list \<Rightarrow> int \<Rightarrow> error + summary_row list" where
  "summarize sg obs n =
     (case assign_port (select_columns sg obs) n of
        Inl e \<Rightarrow> Inl e
      | Inr temp \<Rightarrow>
          let cats = categories temp n
          in Inr (port_summary (port_agg temp cats) cats))"

subsection \<open>The cell on the notebook's objects\<close>

text \<open>
  The notebook's variables name table objects. The objects live in a heap, a variable
  holds the address of its object, a call that builds a table allocates a new object, and
  the column assignment \<^verbatim>\<open>temp['port'] = ...\<close> changes the object that \<^verbatim>\<open>temp\<close>
  names, in place.
\<close>

datatype frame =
    Merged "merged_row list"
  | Temp "temp_row list"
  | Port "port_row list"
  | PortSummary "summary_row list"

record notebook =
  heap :: "frame list"
  nb_crsp_signals :: "nat option"
  nb_temp :: "nat option"
  nb_port :: "nat option"
  nb_port_summary :: "nat option"

definition alloc :: "frame list \<Rightarrow> frame \<Rightarrow> frame list \<times> nat" where
  "alloc h f = (h @ [f], length h)"

fun temp_rows :: "frame \<Rightarrow> temp_row list" where
  "temp_rows (Temp rows) = rows"
| "temp_rows _ = []"

fun port_rows :: "frame \<Rightarrow> port_row list" where
  "port_rows (Port rows) = rows"
| "port_rows _ = []"

fun summary_rows :: "frame \<Rightarrow> summary_row list" where
  "summary_rows (PortSummary rows) = rows"
| "summary_rows _ = []"

text \<open>
  The cell with \<^verbatim>\<open>n\<close> and \<^verbatim>\<open>signalname\<close> as parameters. It returns the exception
  that was raised, or the value of its last expression \<^verbatim>\<open>port_summary\<close>, together
  with the notebook as the cell leaves it. A variable that is unbound gives
  \<open>NameError\<close>; an object without the selected columns gives \<open>KeyError\<close>.
\<close>

definition sort_cell ::
  "int \<Rightarrow> signalname \<Rightarrow> notebook \<Rightarrow> (error + summary_row list) \<times> notebook" where
  "sort_cell n sg nb =
     (case nb_crsp_signals nb of
        None \<Rightarrow> (Inl NameError, nb)
      | Some a \<Rightarrow>
          if \<not> a < length (heap nb) then (Inl NameError, nb)
          else
            (case heap nb ! a of
               Merged obs \<Rightarrow>
                 let (h1, sel) = alloc (heap nb) (Temp (select_columns sg obs));
                     (h2, t) = alloc h1 (h1 ! sel);
                     nb2 = nb\<lparr>heap := h2, nb_temp := Some t\<rparr>
                 in (case transform_qcut (temp_rows (h2 ! t)) n of
                       Inl e \<Rightarrow> (Inl e, nb2)
                     | Inr ls \<Rightarrow>
                         let h3 = h2[t := Temp (set_port (temp_rows (h2 ! t)) ls)];
                             cats = categories (temp_rows (h3 ! t)) n;
                             (h4, p) = alloc h3 (Port (port_agg (temp_rows (h3 ! t)) cats));
                             (h5, s) = alloc h4 (PortSummary (port_summary (port_rows (h4 ! p)) cats))
                         in (Inr (summary_rows (h5 ! s)),
                             nb2\<lparr>heap := h5, nb_port := Some p, nb_port_summary := Some s\<rparr>))
             | _ \<Rightarrow> (Inl KeyError, nb)))"

subsection \<open>Notions of the specification\<close>

text \<open>
  A return row follows a signal row when it is of the same entity and of the month after
  the signal's period; the merged row expected for such a pair carries the return, the
  signal's columns, and the month after the signal's period on day 28 as its date.
\<close>

definition follows :: "crsp_row \<Rightarrow> signal_row \<Rightarrow> bool" where
  "follows c s \<longleftrightarrow>
     crsp_permno c = sg_permno s \<and>
     (fst (crsp_date c), fst (snd (crsp_date c)), 28) = next_month28 (sg_yyyymm s)"

definition matched_row :: "crsp_row \<Rightarrow> signal_row \<Rightarrow> merged_row" where
  "matched_row c s =
     \<lparr>permno = sg_permno s, date = next_month28 (sg_yyyymm s), ret = crsp_ret c,
      yyyymm_signals = Some (sg_yyyymm s), BM = sg_BM s, AssetGrowth = sg_AssetGrowth s\<rparr>"

text \<open>The signal values of the rows of one date and one portfolio.\<close>

definition group_signals :: "temp_row list \<Rightarrow> date \<Rightarrow> nat \<Rightarrow> real list" where
  "group_signals temp d g = dropna (map t_signal (port_cell temp d g))"

subsection \<open>Example tables\<close>

text \<open>
  Small tables on which the functions above are evaluated: two months of returns and
  the signals of the months before, the merged table they give and its sort into two
  groups, a notebook that holds the merged table, and single periods of two, three, one
  and ten entities.
\<close>

definition sample_signals :: "signal_row list" where
  "sample_signals =
     [\<lparr>sg_permno = 10006, sg_yyyymm = 197912, sg_BM = Some (1/2), sg_AssetGrowth = None\<rparr>,
      \<lparr>sg_permno = 10103, sg_yyyymm = 197912, sg_BM = Some (3/2), sg_AssetGrowth = None\<rparr>,
      \<lparr>sg_permno = 10006, sg_yyyymm = 198001, sg_BM = Some 3, sg_AssetGrowth = None\<rparr>,
      \<lparr>sg_permno = 10057, sg_yyyymm = 198001, sg_BM = Some 1, sg_AssetGrowth = None\<rparr>]"

definition sample_crsp :: "crsp_row list" where
  "sample_crsp =
     [\<lparr>crsp_permno = 10006, crsp_date = (1980, 1, 31), crsp_ret = Some 2\<rparr>,
      \<lparr>crsp_permno = 10058, crsp_date = (1980, 1, 31), crsp_ret = Some 0\<rparr>,
      \<lparr>crsp_permno = 10103, crsp_date = (1980, 1, 31), crsp_ret = None\<rparr>,
      \<lparr>crsp_permno = 10006, crsp_date = (1980, 2, 29), crsp_ret = Some 1\<rparr>,
      \<lparr>crsp_permno = 10057, crsp_date = (1980, 2, 29), crsp_ret = Some (- 2)\<rparr>]"

definition sample_obs :: "merged_row list" where
  "sample_obs =
     [\<lparr>permno = 10006, date = (1980, 1, 28), ret = Some 2, yyyymm_signals = Some 197912,
       BM = Some (1/2), AssetGrowth = None\<rparr>,
      \<lparr>permno = 10058, date = (1980, 1, 28), ret = Some 0, yyyymm_signals = None,
       BM = None, AssetGrowth = None\<rparr>,
      \<lparr>permno = 10103, date = (1980, 1, 28), ret = None, yyyymm_signals = Some 197912,
       BM = Some (3/2), AssetGrowth = None\<rparr>,
      \<lparr>permno = 10006, date = (1980, 2, 28), ret = Some 1, yyyymm_signals = Some 198001,
       BM = Some 3, AssetGrowth = None\<rparr>,
      \<lparr>permno = 10057, date = (1980, 2, 28), ret = Some (- 2), yyyymm_signals = Some 198001,
       BM = Some 1, AssetGrowth = None\<rparr>]"


definition sample_notebook :: notebook where
  "sample_notebook =
     \<lparr>heap = [Merged sample_obs], nb_crsp_signals = Some 0, nb_temp = None, nb_port = None,
      nb_port_summary = None\<rparr>"

definition two_entities :: "merged_row list" where
  "two_entities =
     [\<lparr>permno = 10006, date = (1980, 1, 28), ret = Some 2, yyyymm_signals = Some 197912,
       BM = Some 1, AssetGrowth = None\<rparr>,
      \<lparr>permno = 10057, date = (1980, 1, 28), ret = Some 4, yyyymm_signals = Some 197912,
       BM = Some 3, AssetGrowth = None\<rparr>]"

definition three_entities :: "merged_row list" where
  "three_entities =
     [\<lparr>permno = 10006, date = (1980, 1, 28), ret = Some 1, yyyymm_signals = Some 197912,
       BM = Some 1, AssetGrowth = None\<rparr>,
      \<lparr>permno = 10057, date = (1980, 1, 28), ret = Some 2, yyyymm_signals = Some 197912,
       BM = Some 2, AssetGrowth = None\<rparr>,
      \<lparr>permno = 10103, date = (1980, 1, 28), ret = Some 3, yyyymm_signals = Some 197912,
       BM = Some 3, AssetGrowth = None\<rparr>]"

definition lone_entity :: "merged_row list" where
  "lone_entity =
     [\<lparr>permno = 10006, date = (1980, 1, 28), ret = Some 2, yyyymm_signals = Some 197912,
       BM = Some 1, AssetGrowth = None\<rparr>]"

definition ten_entities :: "date \<Rightarrow> (int \<Rightarrow> int) \<Rightarrow> (int \<Rightarrow> real option) \<Rightarrow> merged_row list" where
  "ten_entities d p r =
     map (\<lambda>v. \<lparr>permno = p v, date = d, ret = r v, yyyymm_signals = None,
               BM = Some (of_int v), AssetGrowth = None\<rparr>) [1, 2, 3, 4, 5, 6, 7, 8, 9, 10]"

section \<open>Auxiliary facts\<close>

subsection \<open>Column operations that may raise\<close>

lemma mapM_Inr: "mapM f xs = Inr ys \<Longrightarrow> list_all2 (\<lambda>x y. f x = Inr y) xs ys"
  by (induction xs arbitrary: ys) (auto split: sum.splits)

lemma mapM_Inl: "mapM f xs = Inl e \<Longrightarrow> \<exists>x \<in> set xs. f x = Inl e"
  by (induction xs) (auto split: sum.splits)

lemma mapM_error: "x \<in> set xs \<Longrightarrow> f x = Inl e \<Longrightarrow> \<exists>e'. mapM f xs = Inl e'"
  by (induction xs) (auto split: sum.splits)

subsection \<open>Dates and the left join\<close>

lemma mapM_set: "mapM f xs = Inr ys \<Longrightarrow> set ys = {y. \<exists>x \<in> set xs. f x = Inr y}"
  by (induction xs arbitrary: ys) (auto split: sum.splits)

lemma lag_date_next: "lag_date p = Inr d \<Longrightarrow> d = next_month28 p"
  by (auto simp: lag_date_def to_datetime28_def add_month_def next_month28_def Let_def
      days_in_month_def split: sum.splits if_splits)

lemma to_day28_Inr: "to_day28 d = Inr d' \<Longrightarrow> d' = (fst d, fst (snd d), 28)"
  by (auto simp: to_day28_def split: prod.splits if_splits)

lemma lag_row_of_Inr:
  "lag_row_of s = Inr l \<Longrightarrow>
     l = \<lparr>lag_permno = sg_permno s, lag_yyyymm_signals = sg_yyyymm s, lag_BM = sg_BM s,
          lag_AssetGrowth = sg_AssetGrowth s, lag_date_col = next_month28 (sg_yyyymm s)\<rparr>"
  by (auto simp: lag_row_of_def split: sum.splits dest: lag_date_next)

lemma crsp_day28_row_Inr:
  "crsp_day28_row c = Inr c' \<Longrightarrow>
     c' = c\<lparr>crsp_date := (fst (crsp_date c), fst (snd (crsp_date c)), 28)\<rparr>"
  by (auto simp: crsp_day28_row_def split: sum.splits dest: to_day28_Inr)

lemma set_merge_left:
  "set (merge_left crsp sl) =
     {join_row c s | c s. c \<in> set crsp \<and> s \<in> set sl \<and> key_match c s} \<union>
     {unmatched_row c | c. c \<in> set crsp \<and> (\<forall>s \<in> set sl. \<not> key_match c s)}"
proof -
  have one: "set (case filter (key_match c) sl of [] \<Rightarrow> [unmatched_row c] | ms \<Rightarrow> map (join_row c) ms) =
        {join_row c s | s. s \<in> set sl \<and> key_match c s} \<union>
        {unmatched_row c | x::unit. \<forall>s \<in> set sl. \<not> key_match c s}" for c
  proof (cases "filter (key_match c) sl")
    case Nil
    then have "\<forall>s \<in> set sl. \<not> key_match c s" by (simp add: filter_empty_conv)
    with Nil show ?thesis by auto
  next
    case (Cons a as)
    then have "set (filter (key_match c) sl) \<noteq> {}" by simp
    then have ex: "\<exists>s \<in> set sl. key_match c s" by auto
    have "set (map (join_row c) (filter (key_match c) sl)) = {join_row c s | s. s \<in> set sl \<and> key_match c s}"
      by auto
    with Cons ex show ?thesis by auto
  qed
  show ?thesis unfolding merge_left_def set_concat set_map image_image one by blast
qed

subsection \<open>Quantiles and bin labels\<close>

lemma quantile_zero: "quantile vs 0 = vs ! 0"
  by (simp add: quantile_def)

lemma quantile_one: "vs \<noteq> [] \<Longrightarrow> quantile vs 1 = last vs"
  by (simp add: quantile_def Let_def last_conv_nth)

lemma quantile_bounds:
  assumes "sorted vs" "vs \<noteq> []" "0 \<le> q" "q \<le> 1"
  shows "vs ! 0 \<le> quantile vs q \<and> quantile vs q \<le> last vs"
proof -
  define N where "N = length vs"
  define h where "h = q * real (N - 1)"
  define lo where "lo = nat \<lfloor>h\<rfloor>"
  define hi where "hi = min (lo + 1) (N - 1)"
  have N: "0 < N" using assms(2) by (simp add: N_def)
  have h0: "0 \<le> h" using assms(3) by (simp add: h_def)
  have h1: "h \<le> real (N - 1)" using assms(3,4) by (simp add: h_def mult_left_le_one_le)
  have lo_le: "real lo \<le> h" using h0 by (simp add: lo_def)
  have lo_N: "lo \<le> N - 1"
  proof -
    have "\<lfloor>h\<rfloor> \<le> int (N - 1)" using h1 by (simp add: floor_le_iff) 
    then show ?thesis by (simp add: lo_def)
  qed
  have fr: "h - real lo < 1" using h0 unfolding lo_def by linarith
  have lohi: "lo \<le> hi" using lo_N by (simp add: hi_def)
  have hiN: "hi < N" using N by (simp add: hi_def)
  have loN: "lo < N" using lo_N N by simp
  have a: "vs ! 0 \<le> vs ! lo" using assms(1) loN by (intro sorted_nth_mono) (auto simp: N_def)
  have b: "vs ! lo \<le> vs ! hi" using assms(1) lohi hiN by (intro sorted_nth_mono) (auto simp: N_def)
  have "vs ! hi \<le> vs ! (N - 1)" using assms(1) hiN by (intro sorted_nth_mono) (auto simp: N_def)
  then have c: "vs ! hi \<le> last vs" using assms(2) by (simp add: last_conv_nth N_def)
  have q: "quantile vs q = vs ! lo + (vs ! hi - vs ! lo) * (h - real lo)"
    by (simp add: quantile_def Let_def N_def h_def lo_def hi_def)
  have lower: "vs ! lo \<le> quantile vs q"
    unfolding q using b lo_le by simp
  have "(vs ! hi - vs ! lo) * (h - real lo) \<le> (vs ! hi - vs ! lo) * 1"
    using b fr by (intro mult_left_mono) auto
  then have upper: "quantile vs q \<le> vs ! hi" unfolding q by simp
  from a lower upper c show ?thesis by linarith
qed

lemma length_linspace01: "length (linspace01 num) = num"
  by (simp add: linspace01_def)

lemma linspace01_nth: "i < num \<Longrightarrow> linspace01 num ! i = real i / real (num - 1)"
  by (auto simp: linspace01_def)

lemma linspace01_range: "p \<in> set (linspace01 num) \<Longrightarrow> 0 \<le> p \<and> p \<le> 1"
  by (auto simp: linspace01_def divide_le_eq split: if_splits)

lemma set_dropna: "set (dropna xs) = {v. Some v \<in> set xs}"
  by (induction xs) (auto simp: dropna_def split: option.splits)

lemma dropna_empty: "dropna xs = [] \<Longrightarrow> x \<in> set xs \<Longrightarrow> x = None"
  using set_dropna [of xs] by (cases x) auto

lemma length_dropna: "length (dropna xs) = length (filter (\<lambda>x. x \<noteq> None) xs)"
  by (induction xs) (auto simp: dropna_def split: option.splits)

lemma bin_label_None: "bin_label bins labels None = None"
  by (simp add: bin_label_def)

lemma sort_Nil_iff: "sort xs = [] \<longleftrightarrow> xs = []" for xs :: "real list"
  using length_sort [of "\<lambda>x. x" xs] by (metis length_0_conv)

lemma qcut_Inr:
  assumes "qcut x n = Inr gl" "0 \<le> n"
  shows "gl = map (bin_label (map (quantile (sort (dropna x))) (linspace01 (nat (n + 1))))
                    [1..<nat (n + 1)]) x"
proof (cases "dropna x = []")
  case True
  then have "map (bin_label bs ls) x = map (\<lambda>_. None) x" for bs ls
    by (intro map_cong) (auto dest: dropna_empty simp: bin_label_None)
  with assms True show ?thesis
    by (auto simp: qcut_def Let_def split: if_splits)
next
  case False
  with assms show ?thesis
    by (auto simp: qcut_def Let_def sort_Nil_iff split: if_splits)
qed

lemma qcut_error_kind: "qcut x n = Inl e \<Longrightarrow> 0 \<le> n \<Longrightarrow> e = ValueError"
  by (auto simp: qcut_def Let_def split: if_splits)

lemma qcut_negative: "n < 0 \<Longrightarrow> \<exists>e. qcut x n = Inl e"
  by (auto simp: qcut_def)

lemma takeWhile_stop:
  assumes "i < length xs" "\<not> P (xs ! i)"
  shows "length (takeWhile P xs) \<le> i"
proof (rule ccontr)
  assume "\<not> length (takeWhile P xs) \<le> i"
  then have i: "i < length (takeWhile P xs)" by simp
  then have "takeWhile P xs ! i = xs ! i" by (rule takeWhile_nth)
  moreover have "takeWhile P xs ! i \<in> set (takeWhile P xs)" using i by simp
  ultimately show False using assms(2) by (auto dest: set_takeWhileD)
qed

lemma labels_nth: "1 \<le> k \<Longrightarrow> k \<le> m \<Longrightarrow> [1..<Suc m] ! (k - 1) = k"
  by (simp del: upt_Suc add: nth_upt)

text \<open>The label of a value that occurs in the group, when there are at least two edges.\<close>

lemma bin_label_range:
  assumes vs: "sorted vs" "v \<in> set vs" and m: "1 \<le> m"
    and bins: "bins = map (quantile vs) (linspace01 (Suc m))"
  shows "\<exists>g. bin_label bins [1..<Suc m] (Some v) = Some g \<and> 1 \<le> g \<and> g \<le> m"
proof -
  have ne: "vs \<noteq> []" using vs(2) by auto
  have len: "length bins = Suc m" by (simp add: bins length_linspace01)
  have b0: "bins ! 0 = vs ! 0"
    using m by (simp add: bins length_linspace01 linspace01_nth quantile_zero)
  have bm: "bins ! m = last vs"
    using m ne by (simp add: bins length_linspace01 linspace01_nth quantile_one)
  obtain k where k: "k < length vs" "vs ! k = v" using vs(2) by (auto simp: in_set_conv_nth)
  have lo: "vs ! 0 \<le> v" using vs(1) k sorted_nth_mono [of vs 0 k] by auto
  have hi: "v \<le> last vs"
    using vs(1) k ne sorted_nth_mono [of vs k "length vs - 1"] by (auto simp: last_conv_nth)
  show ?thesis
  proof (cases "v = bins ! 0")
    case True
    with len m labels_nth [of 1 m] show ?thesis by (auto simp del: upt_Suc simp: bin_label_def)
  next
    case False
    define ids where "ids = searchsorted_left bins v"
    have "bins ! 0 < v" using False lo b0 by simp
    then have "takeWhile (\<lambda>b. b < v) bins \<noteq> []"
      using len by (cases bins) auto
    then have ge: "1 \<le> ids" by (cases "takeWhile (\<lambda>b. b < v) bins") (auto simp: ids_def searchsorted_left_def)
    have "\<not> bins ! m < v" using bm hi by simp
    then have le: "ids \<le> m"
      unfolding ids_def searchsorted_left_def using len by (intro takeWhile_stop) auto
    have "bin_label bins [1..<Suc m] (Some v) = Some ([1..<Suc m] ! (ids - 1))"
      using False ge le len by (auto simp: bin_label_def ids_def Let_def)
    moreover have "[1..<Suc m] ! (ids - 1) = ids" using ge le by (rule labels_nth)
    ultimately have "bin_label bins [1..<Suc m] (Some v) = Some ids" by (simp del: upt_Suc)
    with ge le show ?thesis by blast
  qed
qed

subsection \<open>The transform, group by group\<close>

lemma filter_take_nth:
  assumes "i < length xs" "P (xs ! i)"
  shows "filter P xs ! length (filter P (take i xs)) = xs ! i"
proof -
  have "xs = take i xs @ xs ! i # drop (Suc i) xs"
    using assms(1) by (simp add: id_take_nth_drop)
  then have "filter P xs = filter P (take i xs) @ xs ! i # filter P (drop (Suc i) xs)"
    using assms(2) by (metis filter.simps(2) filter_append)
  then show ?thesis by (simp add: nth_append)
qed

lemma filter_take_length:
  assumes "i < length xs" "P (xs ! i)"
  shows "length (filter P (take i xs)) < length (filter P xs)"
proof -
  have "xs = take i xs @ xs ! i # drop (Suc i) xs"
    using assms(1) by (simp add: id_take_nth_drop)
  then have "filter P xs = filter P (take i xs) @ xs ! i # filter P (drop (Suc i) xs)"
    using assms(2) by (metis filter.simps(2) filter_append)
  then show ?thesis by simp
qed

lemma group_dates_distinct: "distinct (group_dates rows)"
  by (simp add: group_dates_def)

lemma set_group_dates: "set (group_dates rows) = t_date ` set rows"
  by (simp add: group_dates_def)

lemma pos_in_group:
  assumes "i < length rows"
  shows "pos_in_group rows i < length (group_of rows (t_date (rows ! i)))"
    and "group_of rows (t_date (rows ! i)) ! pos_in_group rows i = rows ! i"
  using assms
  by (simp_all add: pos_in_group_def group_of_def filter_take_length filter_take_nth)

lemma transform_qcut_Inr:
  assumes "transform_qcut rows n = Inr ls"
  shows "length ls = length rows"
    and "i < length rows \<Longrightarrow>
           \<exists>gl. qcut (map t_signal (group_of rows (t_date (rows ! i)))) n = Inr gl \<and>
                ls ! i = gl ! pos_in_group rows i"
proof -
  let ?f = "\<lambda>d. qcut (map t_signal (group_of rows d)) n"
  from assms obtain res where res: "mapM ?f (group_dates rows) = Inr res"
    and ls: "ls = map (\<lambda>i. case map_of (zip (group_dates rows) res) (t_date (rows ! i)) of
                           None \<Rightarrow> None
                         | Some gl \<Rightarrow> gl ! pos_in_group rows i) [0..<length rows]"
    by (auto simp: transform_qcut_def split: sum.splits)
  show "length ls = length rows" by (simp add: ls)
  assume i: "i < length rows"
  have all2: "list_all2 (\<lambda>d y. ?f d = Inr y) (group_dates rows) res"
    using res by (rule mapM_Inr)
  then have len: "length (group_dates rows) = length res" by (rule list_all2_lengthD)
  have "t_date (rows ! i) \<in> set (group_dates rows)" using i by (simp add: set_group_dates)
  then obtain k where k: "k < length (group_dates rows)" "group_dates rows ! k = t_date (rows ! i)"
    by (auto simp: in_set_conv_nth)
  have "map_of (zip (group_dates rows) res) (group_dates rows ! k) = Some (res ! k)"
    using len k(1) by (intro map_of_zip_nth) (auto simp: group_dates_distinct)
  moreover have "?f (group_dates rows ! k) = Inr (res ! k)"
    using all2 k(1) by (rule list_all2_nthD)
  ultimately show "\<exists>gl. ?f (t_date (rows ! i)) = Inr gl \<and> ls ! i = gl ! pos_in_group rows i"
    using i k(2) by (auto simp: ls)
qed

lemma transform_qcut_ok:
  assumes "\<And>d. d \<in> t_date ` set rows \<Longrightarrow> \<exists>gl. qcut (map t_signal (group_of rows d)) n = Inr gl"
  shows "\<exists>ls. transform_qcut rows n = Inr ls"
proof (cases "mapM (\<lambda>d. qcut (map t_signal (group_of rows d)) n) (group_dates rows)")
  case (Inl e)
  then obtain d where "d \<in> set (group_dates rows)" "qcut (map t_signal (group_of rows d)) n = Inl e"
    by (auto dest: mapM_Inl)
  with assms [of d] show ?thesis by (simp add: set_group_dates)
next
  case (Inr res)
  then show ?thesis by (simp add: transform_qcut_def)
qed


lemma assign_port_Inr:
  assumes "assign_port rows n = Inr temp" "0 \<le> n"
  shows "temp = map (\<lambda>r. r\<lparr>t_port := row_label rows n r\<rparr>) rows"
proof -
  from assms(1) obtain ls where ls: "transform_qcut rows n = Inr ls"
    and temp: "temp = set_port rows ls"
    by (auto simp: assign_port_def split: sum.splits)
  have len: "length ls = length rows" using ls by (rule transform_qcut_Inr)
  show ?thesis
  proof (rule nth_equalityI)
    show "length temp = length (map (\<lambda>r. r\<lparr>t_port := row_label rows n r\<rparr>) rows)"
      by (simp add: temp set_port_def len)
  next
    fix i assume "i < length temp"
    then have i: "i < length rows" by (simp add: temp set_port_def len)
    let ?d = "t_date (rows ! i)"
    let ?x = "map t_signal (group_of rows ?d)"
    from transform_qcut_Inr(2) [OF ls i] obtain gl where
      gl: "qcut ?x n = Inr gl" "ls ! i = gl ! pos_in_group rows i" by blast
    have pos: "pos_in_group rows i < length ?x" using pos_in_group(1) [OF i] by simp
    have x: "?x ! pos_in_group rows i = t_signal (rows ! i)"
      using pos_in_group [OF i] by simp
    have "gl ! pos_in_group rows i = row_label rows n (rows ! i)"
      unfolding qcut_Inr [OF gl(1) assms(2)] row_label_def group_bins_def group_values_def
      using pos x by simp
    with gl(2) i len show "temp ! i = map (\<lambda>r. r\<lparr>t_port := row_label rows n r\<rparr>) rows ! i"
      by (simp add: temp set_port_def)
  qed
qed

lemma sorted_group_values: "sorted (group_values rows d)"
  by (simp add: group_values_def)

lemma in_group_values:
  "r \<in> set rows \<Longrightarrow> t_signal r = Some v \<Longrightarrow> v \<in> set (group_values rows (t_date r))"
  by (force simp: group_values_def set_dropna group_of_def)

lemma row_label_missing: "t_signal r = None \<Longrightarrow> row_label rows n r = None"
  by (simp add: row_label_def bin_label_None)

lemma row_label_range:
  assumes "r \<in> set rows" "t_signal r = Some v" "1 \<le> n"
  shows "\<exists>g. row_label rows n r = Some g \<and> 1 \<le> g \<and> int g \<le> n"
proof -
  have n: "nat (n + 1) = Suc (nat n)" "1 \<le> nat n" using assms(3) by simp_all
  from bin_label_range [OF sorted_group_values in_group_values [OF assms(1,2)] n(2) refl]
  obtain g where "bin_label (map (quantile (group_values rows (t_date r))) (linspace01 (Suc (nat n))))
      [1..<Suc (nat n)] (Some v) = Some g" "1 \<le> g" "g \<le> nat n" by blast
  then show ?thesis using assms(2,3) by (auto simp: row_label_def group_bins_def n(1))
qed



subsection \<open>Counting over groups\<close>














subsection \<open>The lowest and the highest group\<close>












subsection \<open>Errors of the sort\<close>

lemma qcut_one: "\<exists>gl. qcut x 1 = Inr gl"
  by (simp add: qcut_def Let_def length_linspace01)

lemma transform_error_kind:
  assumes "transform_qcut rows n = Inl e" "0 \<le> n"
  shows "e = ValueError"
proof -
  from assms(1) have "mapM (\<lambda>d. qcut (map t_signal (group_of rows d)) n) (group_dates rows) = Inl e"
    by (auto simp: transform_qcut_def split: sum.splits)
  then obtain d where "qcut (map t_signal (group_of rows d)) n = Inl e" by (auto dest: mapM_Inl)
  then show ?thesis using assms(2) by (rule qcut_error_kind)
qed


lemma quantile_constant:
  assumes "vs \<noteq> []" "\<And>x. x \<in> set vs \<Longrightarrow> x = v" "0 \<le> q" "q \<le> 1"
  shows "quantile vs q = v"
proof -
  have s: "sorted vs" using assms(2) by (induction vs) auto
  have "vs ! 0 = v" "last vs = v" using assms(1,2) by (auto simp: last_in_set)
  with quantile_bounds [OF s assms(1,3,4)] show ?thesis by simp
qed

lemma qcut_few_values:
  assumes "2 \<le> n" "card (set (dropna x)) < 2"
  shows "qcut x n = Inl ValueError"
proof (cases "dropna x = []")
  case True
  with assms(1) show ?thesis by (auto simp: qcut_def Let_def)
next
  case False
  let ?vs = "sort (dropna x)"
  let ?bins = "map (quantile ?vs) (linspace01 (nat (n + 1)))"
  have ne: "?vs \<noteq> []" using False by (simp add: sort_Nil_iff)
  from False obtain v where v: "v \<in> set (dropna x)" by (cases "dropna x") auto
  have "card (set (dropna x)) = 1"
    using assms(2) v card_gt_0_iff [of "set (dropna x)"] by fastforce
  then obtain u where "set (dropna x) = {u}" by (auto simp: card_1_singleton_iff)
  then have all: "\<And>y. y \<in> set ?vs \<Longrightarrow> y = u" by simp
  have len: "length ?bins = nat (n + 1)" by (simp add: length_linspace01)
  have "?bins ! k = u" if "k < nat (n + 1)" for k
  proof -
    have "linspace01 (nat (n + 1)) ! k \<in> set (linspace01 (nat (n + 1)))"
      using that by (simp add: length_linspace01)
    then have "0 \<le> linspace01 (nat (n + 1)) ! k \<and> linspace01 (nat (n + 1)) ! k \<le> 1"
      by (rule linspace01_range)
    then show ?thesis using that quantile_constant [OF ne all]
      by (simp add: length_linspace01)
  qed
  then have "?bins ! 0 = ?bins ! 1" using assms(1) by simp
  moreover have "0 < length ?bins" "1 < length ?bins" "(0::nat) \<noteq> 1"
    using assms(1) unfolding len by simp_all
  ultimately have "\<not> distinct ?bins"
    unfolding distinct_conv_nth by blast
  then show ?thesis using ne len assms(1) by (auto simp: qcut_def Let_def)
qed

subsection \<open>The cell and the heap\<close>

text \<open>What the cell does when \<^verbatim>\<open>crsp_signals\<close> names a merged table.\<close>

lemma sort_cell_merged:
  assumes "nb_crsp_signals nb = Some a" "a < length (heap nb)" "heap nb ! a = Merged obs"
  shows "sort_cell n sg nb =
     (let rows = select_columns sg obs; L = length (heap nb) in
      case assign_port rows n of
        Inl e \<Rightarrow> (Inl e, nb\<lparr>heap := heap nb @ [Temp rows, Temp rows], nb_temp := Some (Suc L)\<rparr>)
      | Inr temp \<Rightarrow>
          (summarize sg obs n,
           nb\<lparr>heap := heap nb @ [Temp rows, Temp temp,
                                 Port (port_agg temp (categories temp n)),
                                 PortSummary (port_summary (port_agg temp (categories temp n))
                                                (categories temp n))],
              nb_temp := Some (Suc L), nb_port := Some (Suc (Suc L)),
              nb_port_summary := Some (Suc (Suc (Suc L)))\<rparr>))"
  using assms
  by (auto simp: sort_cell_def alloc_def Let_def nth_append assign_port_def summarize_def
      list_update_append split: sum.splits)

lemma sort_cell_frame:
  assumes "nb_crsp_signals nb = Some a" "a < length (heap nb)" "heap nb ! a = Merged obs"
  shows "nb_crsp_signals (snd (sort_cell n sg nb)) = Some a"
    and "b < length (heap nb) \<Longrightarrow> heap (snd (sort_cell n sg nb)) ! b = heap nb ! b"
    and "length (heap nb) \<le> length (heap (snd (sort_cell n sg nb)))"
    and "fst (sort_cell n sg nb) = summarize sg obs n"
  unfolding sort_cell_merged [OF assms]
  using assms(1) by (auto simp: Let_def nth_append summarize_def split: sum.splits)

lemma sort_cell_unbound:
  assumes "\<not> (\<exists>a obs. nb_crsp_signals nb = Some a \<and> a < length (heap nb) \<and> heap nb ! a = Merged obs)"
  shows "snd (sort_cell n sg nb) = nb"
  using assms by (auto simp: sort_cell_def split: option.splits frame.splits)

subsection \<open>The example tables, evaluated\<close>






lemma sample_signals_lag:
  "signals_lag sample_signals =
     Inr [\<lparr>lag_permno = 10006, lag_yyyymm_signals = 197912, lag_BM = Some (1/2),
           lag_AssetGrowth = None, lag_date_col = (1980, 1, 28)\<rparr>,
          \<lparr>lag_permno = 10103, lag_yyyymm_signals = 197912, lag_BM = Some (3/2),
           lag_AssetGrowth = None, lag_date_col = (1980, 1, 28)\<rparr>,
          \<lparr>lag_permno = 10006, lag_yyyymm_signals = 198001, lag_BM = Some 3,
           lag_AssetGrowth = None, lag_date_col = (1980, 2, 28)\<rparr>,
          \<lparr>lag_permno = 10057, lag_yyyymm_signals = 198001, lag_BM = Some 1,
           lag_AssetGrowth = None, lag_date_col = (1980, 2, 28)\<rparr>]"
  by (simp add: signals_lag_def sample_signals_def lag_row_of_def lag_date_def to_datetime28_def
      add_month_def in_bounds_def days_in_month_def Let_def)

lemma sample_crsp_day28:
  "crsp_day28 sample_crsp =
     Inr [\<lparr>crsp_permno = 10006, crsp_date = (1980, 1, 28), crsp_ret = Some 2\<rparr>,
          \<lparr>crsp_permno = 10058, crsp_date = (1980, 1, 28), crsp_ret = Some 0\<rparr>,
          \<lparr>crsp_permno = 10103, crsp_date = (1980, 1, 28), crsp_ret = None\<rparr>,
          \<lparr>crsp_permno = 10006, crsp_date = (1980, 2, 28), crsp_ret = Some 1\<rparr>,
          \<lparr>crsp_permno = 10057, crsp_date = (1980, 2, 28), crsp_ret = Some (- 2)\<rparr>]"
  by (simp add: crsp_day28_def sample_crsp_def crsp_day28_row_def to_day28_def in_bounds_def)

lemma sample_merge: "merge_signals_with_crsp sample_crsp sample_signals = Inr sample_obs"
  by (simp add: merge_signals_with_crsp_def sample_signals_lag sample_crsp_day28 merge_left_def
      key_match_def join_row_def unmatched_row_def sample_obs_def)

lemma two_q: "qcut [Some 1, Some 3] 1 = Inr [Some 1, Some 1]"
  by (simp add: qcut_def Let_def dropna_def linspace01_def quantile_def bin_label_def
      searchsorted_left_def upt_rec)

lemma two_assign:
  "assign_port (select_columns SigBM two_entities) 1 =
     Inr [\<lparr>t_permno = 10006, t_date = (1980, 1, 28), t_ret = Some 2, t_signal = Some 1, t_port = Some 1\<rparr>,
          \<lparr>t_permno = 10057, t_date = (1980, 1, 28), t_ret = Some 4, t_signal = Some 3, t_port = Some 1\<rparr>]"
  by (simp add: assign_port_def transform_qcut_def group_dates_def select_columns_def
      two_entities_def signal_column_def group_of_def two_q pos_in_group_def upt_rec set_port_def)

lemma three_q: "qcut [Some 1, Some 2, Some 3] 5 = Inr [Some 1, Some 3, Some 5]"
  by (simp add: qcut_def Let_def dropna_def linspace01_def quantile_def bin_label_def
      searchsorted_left_def upt_rec)

lemma three_assign:
  "assign_port (select_columns SigBM three_entities) 5 =
     Inr [\<lparr>t_permno = 10006, t_date = (1980, 1, 28), t_ret = Some 1, t_signal = Some 1, t_port = Some 1\<rparr>,
          \<lparr>t_permno = 10057, t_date = (1980, 1, 28), t_ret = Some 2, t_signal = Some 2, t_port = Some 3\<rparr>,
          \<lparr>t_permno = 10103, t_date = (1980, 1, 28), t_ret = Some 3, t_signal = Some 3, t_port = Some 5\<rparr>]"
  by (simp add: assign_port_def transform_qcut_def group_dates_def select_columns_def
      three_entities_def signal_column_def group_of_def three_q pos_in_group_def upt_rec set_port_def)

lemma ten_quantiles:
  "quantile [1, 2, 3, 4, 5, 6, 7, 8, 9, 10] 0 = 1"
  "quantile [1, 2, 3, 4, 5, 6, 7, 8, 9, 10] (1/5) = 14/5"
  "quantile [1, 2, 3, 4, 5, 6, 7, 8, 9, 10] (2/5) = 23/5"
  "quantile [1, 2, 3, 4, 5, 6, 7, 8, 9, 10] (3/5) = 32/5"
  "quantile [1, 2, 3, 4, 5, 6, 7, 8, 9, 10] (4/5) = 41/5"
  "quantile [1, 2, 3, 4, 5, 6, 7, 8, 9, 10] 1 = 10"
  by (simp_all add: quantile_def Let_def)

lemma ten_qcut:
  "qcut [Some 1, Some 2, Some 3, Some 4, Some 5, Some 6, Some 7, Some 8, Some 9, Some 10] 5 =
     Inr [Some 1, Some 1, Some 2, Some 2, Some 3, Some 3, Some 4, Some 4, Some 5, Some 5]"
  by (simp add: qcut_def Let_def dropna_def linspace01_def ten_quantiles bin_label_def
      searchsorted_left_def upt_rec)

lemma ten_rows:
  "select_columns SigBM (ten_entities d p r) =
     map (\<lambda>v. \<lparr>t_permno = p v, t_date = d, t_ret = r v, t_signal = Some (of_int v),
               t_port = None\<rparr>) [1, 2, 3, 4, 5, 6, 7, 8, 9, 10]"
  by (simp add: select_columns_def ten_entities_def signal_column_def)

lemma ten_assign:
  "assign_port (select_columns SigBM (ten_entities d p r)) 5 =
     Inr (map (\<lambda>(v, g). \<lparr>t_permno = p v, t_date = d, t_ret = r v, t_signal = Some (of_int v),
                         t_port = Some g\<rparr>)
            [(1, 1), (2, 1), (3, 2), (4, 2), (5, 3), (6, 3), (7, 4), (8, 4), (9, 5), (10, 5)])"
  by (simp add: assign_port_def ten_rows transform_qcut_def group_dates_def group_of_def
      ten_qcut pos_in_group_def upt_rec set_port_def)

section \<open>The claims\<close>

text \<open>
  C1: the merged table holds, with signal columns, exactly the rows that pair a return row
  with a signal row of the same entity whose period is the month before the return's
  month; the date of such a row is the month after the signal's
  \<^verbatim>\<open>yyyymm\<close> on day 28.
\<close>

theorem lagged_signal_meets_next_month_return:
  assumes "merge_signals_with_crsp crsp signals = Inr merged"
  shows "{m \<in> set merged. yyyymm_signals m \<noteq> None} =
         {matched_row c s | c s. c \<in> set crsp \<and> s \<in> set signals \<and> follows c s}"
proof -
  from assms obtain sl c28 where sl: "signals_lag signals = Inr sl"
    and c28: "crsp_day28 crsp = Inr c28" and m: "merged = merge_left c28 sl"
    by (auto simp: merge_signals_with_crsp_def split: sum.splits)
  have set_sl: "set sl = {l. \<exists>s \<in> set signals. lag_row_of s = Inr l}"
    using sl by (simp add: signals_lag_def mapM_set)
  have set_c28: "set c28 = {c'. \<exists>c \<in> set crsp. crsp_day28_row c = Inr c'}"
    using c28 by (simp add: crsp_day28_def mapM_set)
  have all_s: "\<exists>l. lag_row_of s = Inr l" if "s \<in> set signals" for s
    using sl that mapM_error [of s signals lag_row_of]
    by (cases "lag_row_of s") (auto simp: signals_lag_def)
  have all_c: "\<exists>c'. crsp_day28_row c = Inr c'" if "c \<in> set crsp" for c
    using c28 that mapM_error [of c crsp crsp_day28_row]
    by (cases "crsp_day28_row c") (auto simp: crsp_day28_def)
  have join: "(key_match c' l \<longleftrightarrow> follows c s) \<and> (key_match c' l \<longrightarrow> join_row c' l = matched_row c s)"
    if "lag_row_of s = Inr l" "crsp_day28_row c = Inr c'" for c c' s l
    using lag_row_of_Inr [OF that(1)] crsp_day28_row_Inr [OF that(2)]
    by (auto simp: join_row_def matched_row_def key_match_def follows_def)
  have "{m \<in> set merged. yyyymm_signals m \<noteq> None} =
        {join_row c' l | c' l. c' \<in> set c28 \<and> l \<in> set sl \<and> key_match c' l}"
    unfolding m set_merge_left by (auto simp: join_row_def unmatched_row_def)
  also have "\<dots> = {matched_row c s | c s. c \<in> set crsp \<and> s \<in> set signals \<and> follows c s}"
    (is "?L = ?R")
  proof (intro set_eqI iffI)
    fix x assume "x \<in> ?L"
    then obtain c' l where x: "x = join_row c' l" and c': "c' \<in> set c28" and l: "l \<in> set sl"
      and k: "key_match c' l" by blast
    from c' set_c28 obtain c where c: "c \<in> set crsp" "crsp_day28_row c = Inr c'" by blast
    from l set_sl obtain s where s: "s \<in> set signals" "lag_row_of s = Inr l" by blast
    from join [OF s(2) c(2)] k x c(1) s(1) show "x \<in> ?R" by blast
  next
    fix x assume "x \<in> ?R"
    then obtain c s where x: "x = matched_row c s" and c: "c \<in> set crsp"
      and s: "s \<in> set signals" and f: "follows c s" by blast
    from all_c [OF c] obtain c' where c': "crsp_day28_row c = Inr c'" by blast
    from all_s [OF s] obtain l where l: "lag_row_of s = Inr l" by blast
    have "c' \<in> set c28" "l \<in> set sl" using c c' s l set_c28 set_sl by auto
    moreover from join [OF l c'] f x have "key_match c' l" "x = join_row c' l" by simp_all
    ultimately show "x \<in> ?L" by blast
  qed
  finally show ?thesis .
qed

text \<open>The theorem on the example tables.\<close>

theorem lagged_signal_meets_next_month_return_witness:
  "merge_signals_with_crsp sample_crsp sample_signals = Inr sample_obs \<and>
   {m \<in> set sample_obs. yyyymm_signals m \<noteq> None} =
   {matched_row c s | c s. c \<in> set sample_crsp \<and> s \<in> set sample_signals \<and> follows c s}"
  using lagged_signal_meets_next_month_return [OF sample_merge] sample_merge by simp

text \<open>
  C2 as stated fails: with one group, the sort of two entities of one period returns a
  summary.
\<close>

theorem one_group_counterexample:
  "summarize SigBM two_entities 1 =
     Inr [\<lparr>s_port = 1, ret_mean = Some 3, ret_std = None, nstock_mean = Some 2,
           date_min = Some (1980, 1, 28), date_max = Some (1980, 1, 28)\<rparr>]"
  by (simp add: summarize_def two_assign categories_def port_summary_def port_agg_def
      group_dates_def port_cell_def mean_def std_def dropna_def min_date_def max_date_def upt_rec)

text \<open>
  C2 (amended): the sort does not check the number of groups: with one group it raises
  nothing, every row with a signal value is put in group 1, and a summary is returned.
\<close>

theorem one_group_is_accepted:
  "\<exists>temp out.
     assign_port (select_columns sg obs) 1 = Inr temp \<and>
     map t_port temp = map (\<lambda>r. if signal_column sg r = None then None else Some 1) obs \<and>
     summarize sg obs 1 = Inr out"
proof -
  let ?rows = "select_columns sg obs"
  obtain ls where ls: "transform_qcut ?rows 1 = Inr ls"
    using transform_qcut_ok [of ?rows 1] qcut_one by blast
  then have a: "assign_port ?rows 1 = Inr (set_port ?rows ls)" by (simp add: assign_port_def)
  then have temp: "set_port ?rows ls = map (\<lambda>r. r\<lparr>t_port := row_label ?rows 1 r\<rparr>) ?rows"
    by (intro assign_port_Inr) auto
  have "row_label ?rows 1 r = (if t_signal r = None then None else Some 1)" if "r \<in> set ?rows" for r
  proof (cases "t_signal r")
    case None
    then show ?thesis by (simp add: row_label_missing)
  next
    case (Some v)
    from row_label_range [OF that Some, of 1] Some show ?thesis by auto
  qed
  then have "map t_port (set_port ?rows ls) =
             map (\<lambda>r. if signal_column sg r = None then None else Some 1) obs"
    unfolding temp by (auto simp: select_columns_def)
  with a show ?thesis by (simp add: summarize_def Let_def)
qed

text \<open>
  C3 as stated fails: three entities with the signal values 1, 2, 3 are sorted into five
  groups without an error; the groups 2 and 4 stay empty.
\<close>

theorem three_values_five_groups_counterexample:
  "summarize SigBM three_entities 5 =
     Inr [\<lparr>s_port = 1, ret_mean = Some 1, ret_std = None, nstock_mean = Some 1,
           date_min = Some (1980, 1, 28), date_max = Some (1980, 1, 28)\<rparr>,
          \<lparr>s_port = 2, ret_mean = None, ret_std = None, nstock_mean = Some 0,
           date_min = Some (1980, 1, 28), date_max = Some (1980, 1, 28)\<rparr>,
          \<lparr>s_port = 3, ret_mean = Some 2, ret_std = None, nstock_mean = Some 1,
           date_min = Some (1980, 1, 28), date_max = Some (1980, 1, 28)\<rparr>,
          \<lparr>s_port = 4, ret_mean = None, ret_std = None, nstock_mean = Some 0,
           date_min = Some (1980, 1, 28), date_max = Some (1980, 1, 28)\<rparr>,
          \<lparr>s_port = 5, ret_mean = Some 3, ret_std = None, nstock_mean = Some 1,
           date_min = Some (1980, 1, 28), date_max = Some (1980, 1, 28)\<rparr>]"
  by (simp add: summarize_def three_assign categories_def port_agg_def
      group_dates_def port_cell_def upt_rec)
     (simp add: port_summary_def Let_def mean_def std_def dropna_def min_date_def max_date_def)

text \<open>
  C3 (amended): with at least two groups, a period that has fewer than two different
  signal values makes the sort raise \<open>ValueError\<close> (the bin edges are not
  unique), and no summary is returned.
\<close>

theorem period_without_two_values_is_refused:
  assumes "2 \<le> n" and "d \<in> date ` set obs"
    and "card {v. \<exists>r \<in> set obs. date r = d \<and> signal_column sg r = Some v} < 2"
  shows "summarize sg obs n = Inl ValueError"
proof -
  let ?rows = "select_columns sg obs"
  let ?x = "map t_signal (group_of ?rows d)"
  have "set (dropna ?x) = {v. \<exists>r \<in> set obs. date r = d \<and> signal_column sg r = Some v}"
    by (force simp: set_dropna group_of_def select_columns_def)
  with assms(1,3) have q: "qcut ?x n = Inl ValueError" by (intro qcut_few_values) auto
  have "d \<in> set (group_dates ?rows)"
    using assms(2) by (force simp: set_group_dates select_columns_def)
  from mapM_error [OF this, of "\<lambda>d. qcut (map t_signal (group_of ?rows d)) n", OF q]
  obtain e where "transform_qcut ?rows n = Inl e" by (auto simp: transform_qcut_def)
  moreover from this have "e = ValueError" using assms(1) by (intro transform_error_kind) auto
  ultimately show ?thesis by (simp add: summarize_def assign_port_def)
qed

text \<open>The theorem on a period with one entity.\<close>

theorem period_without_two_values_is_refused_witness:
  "(2::int) \<le> 2 \<and> (1980, 1, 28) \<in> date ` set lone_entity \<and>
   card {v. \<exists>r \<in> set lone_entity. date r = (1980, 1, 28) \<and> signal_column SigBM r = Some v} < 2 \<and>
   summarize SigBM lone_entity 2 = Inl ValueError"
proof -
  have d: "(1980, 1, 28) \<in> date ` set lone_entity" by (simp add: lone_entity_def)
  have "{v. \<exists>r \<in> set lone_entity. date r = (1980, 1, 28) \<and> signal_column SigBM r = Some v} = {1}"
    by (auto simp: lone_entity_def signal_column_def)
  then have c: "card {v. \<exists>r \<in> set lone_entity. date r = (1980, 1, 28) \<and> signal_column SigBM r = Some v} < 2"
    by simp
  have n: "(2::int) \<le> 2" by simp
  from period_without_two_values_is_refused [OF n d c] d c show ?thesis by simp
qed







text \<open>
  C7: ten entities of one period with the signal values 1 to 10, in this order, and five
  groups: the labels are 1, 1, 2, 2, 3, 3, 4, 4, 5, 5, every group counts two entities,
  group 1 holds the values 1 and 2, group 5 the values 9 and 10, and the summary reports
  an average count of 2 for every group. Entities, returns and the date are arbitrary.
\<close>

theorem ten_values_five_groups:
  "(case assign_port (select_columns SigBM (ten_entities d p r)) 5 of
      Inl e \<Rightarrow> False
    | Inr temp \<Rightarrow>
        map t_port temp =
          [Some 1, Some 1, Some 2, Some 2, Some 3, Some 3, Some 4, Some 4, Some 5, Some 5] \<and>
        map (\<lambda>q. (p_date q, p_port q, p_nstock q)) (port_agg temp (categories temp 5)) =
          [(d, 1, 2), (d, 2, 2), (d, 3, 2), (d, 4, 2), (d, 5, 2)] \<and>
        group_signals temp d 1 = [1, 2] \<and> group_signals temp d 5 = [9, 10]) \<and>
   (case summarize SigBM (ten_entities d p r) 5 of
      Inl e \<Rightarrow> False
    | Inr out \<Rightarrow>
        map (\<lambda>s. (s_port s, nstock_mean s)) out =
          [(1, Some 2), (2, Some 2), (3, Some 2), (4, Some 2), (5, Some 2)])"
proof -
  let ?temp = "map (\<lambda>(v, g). \<lparr>t_permno = p v, t_date = d, t_ret = r v, t_signal = Some (of_int v),
                         t_port = Some g\<rparr>)
            [(1, 1), (2, 1), (3, 2), (4, 2), (5, 3), (6, 3), (7, 4), (8, 4), (9, 5), (10, 5)]"
  have cats: "categories ?temp 5 = [1, 2, 3, 4, 5]" by (simp add: categories_def upt_rec)
  have dates: "group_dates ?temp = [d]" by (simp add: group_dates_def)
  have port: "map (\<lambda>q. (p_date q, p_port q, p_nstock q)) (port_agg ?temp [1, 2, 3, 4, 5]) =
          [(d, 1, 2), (d, 2, 2), (d, 3, 2), (d, 4, 2), (d, 5, 2)]"
    unfolding port_agg_def dates by (simp add: port_cell_def)
  have sig: "group_signals ?temp d 1 = [1, 2]" "group_signals ?temp d 5 = [9, 10]"
    by (simp_all add: group_signals_def port_cell_def dropna_def)
  have labels: "map t_port ?temp =
          [Some 1, Some 1, Some 2, Some 2, Some 3, Some 3, Some 4, Some 4, Some 5, Some 5]"
    by simp
  have summ: "map (\<lambda>s. (s_port s, nstock_mean s)) (port_summary (port_agg ?temp [1, 2, 3, 4, 5]) [1, 2, 3, 4, 5]) =
          [(1, Some 2), (2, Some 2), (3, Some 2), (4, Some 2), (5, Some 2)]"
    unfolding port_agg_def dates by (simp add: port_summary_def port_cell_def Let_def mean_def)
  show ?thesis
    unfolding summarize_def ten_assign sum.case Let_def cats
    using labels port sig summ by (intro conjI)
qed

text \<open>
  C8: running the cell again, in the notebook that the first run left, returns what the
  first run returned.
\<close>

theorem rerun_gives_same_summary:
  "fst (sort_cell n sg (snd (sort_cell n sg nb))) = fst (sort_cell n sg nb)"
proof (cases "\<exists>a obs. nb_crsp_signals nb = Some a \<and> a < length (heap nb) \<and> heap nb ! a = Merged obs")
  case False
  then show ?thesis by (simp add: sort_cell_unbound)
next
  case True
  then obtain a obs where w: "nb_crsp_signals nb = Some a" "a < length (heap nb)"
    "heap nb ! a = Merged obs" by blast
  let ?nb = "snd (sort_cell n sg nb)"
  have "nb_crsp_signals ?nb = Some a" "a < length (heap ?nb)" "heap ?nb ! a = Merged obs"
    using sort_cell_frame(1) [OF w, of n sg] sort_cell_frame(2) [OF w w(2), of n sg]
      sort_cell_frame(3) [OF w, of n sg] w by auto
  then have "fst (sort_cell n sg ?nb) = summarize sg obs n" by (rule sort_cell_frame(4))
  with sort_cell_frame(4) [OF w] show ?thesis by simp
qed

text \<open>
  C9: the cell changes no object that was there before it ran,
  \<^verbatim>\<open>crsp_signals\<close> still names the same object, and what the cell
  returns is the function \<open>summarize\<close> of the merged table and the number of
  groups.
\<close>

theorem cell_leaves_merged_table_alone:
  assumes "nb_crsp_signals nb = Some a" and "a < length (heap nb)" and "heap nb ! a = Merged obs"
  shows "nb_crsp_signals (snd (sort_cell n sg nb)) = Some a \<and>
         (\<forall>b < length (heap nb). heap (snd (sort_cell n sg nb)) ! b = heap nb ! b) \<and>
         fst (sort_cell n sg nb) = summarize sg obs n"
  using sort_cell_frame(1,2,4) [OF assms] by blast

text \<open>The theorem on the example notebook.\<close>

theorem cell_leaves_merged_table_alone_witness:
  "nb_crsp_signals sample_notebook = Some 0 \<and> 0 < length (heap sample_notebook) \<and>
   heap sample_notebook ! 0 = Merged sample_obs \<and>
   nb_crsp_signals (snd (sort_cell 2 SigBM sample_notebook)) = Some 0 \<and>
   heap (snd (sort_cell 2 SigBM sample_notebook)) ! 0 = Merged sample_obs \<and>
   fst (sort_cell 2 SigBM sample_notebook) = summarize SigBM sample_obs 2"
proof -
  have a: "nb_crsp_signals sample_notebook = Some 0"
    and b: "0 < length (heap sample_notebook)"
    and c: "heap sample_notebook ! 0 = Merged sample_obs"
    by (simp_all add: sample_notebook_def)
  from cell_leaves_merged_table_alone [OF a b c, of 2 SigBM] a b c show ?thesis by simp
qed



end
